theory Spec2Isabelle
  imports Main
begin

section \<open>The FAISS product search service (faiss_service.py)\<close>

text \<open>
  The service keeps two module globals, \<open>faiss_index\<close> and \<open>product_mapping\<close>.
  \<open>build_faiss_index\<close> fills them from the catalog and the reference images,
  \<open>search_product\<close>, \<open>health_check\<close> and \<open>rebuild_index\<close> are the HTTP handlers.
  The globals are an explicit state record here, and every handler takes the state (and returns
  the new one where it writes). What the file system, the image decoder, the embedding network
  and the FAISS library answer is not code of this module: it is read from an environment
  record, one field per external call.

  Strings are byte strings, the UTF-8 encoding of the Python strings: the characters the code
  looks for (space, slash, the image extensions) are ASCII, and an ASCII byte occurs in UTF-8
  only as itself. The components of an embedding (numpy float32) and the JSON value
  of a price are type parameters \<open>'f\<close> and \<open>'p\<close>: the handlers only move them around.
\<close>

subsection \<open>Configuration\<close>

definition EMBEDDING_DIM :: nat where
  "EMBEDDING_DIM = 576"

definition REFERENCES_DIR :: string where
  "REFERENCES_DIR = ''references''"

subsection \<open>Exceptions and HTTP errors\<close>

datatype exn =
    KeyError string
  | NotADirectoryError string
  | JSONDecodeError
  | ValueError
  | AssertionError
  | OtherError string

text \<open>\<open>HTTPException(status_code, detail)\<close>; the detail is a fixed text or \<open>str(e)\<close>.\<close>

datatype detail = Text string | StrOf exn

datatype http_error = HTTPException nat detail

subsection \<open>Data\<close>

text \<open>
  A catalog entry is a JSON object. \<open>None\<close> means that the key is absent:
  the code reads \<open>'id'\<close> and \<open>'price'\<close> with \<open>get\<close> and \<open>'name'\<close> with a subscript.
\<close>

record 'p product =
  p_id :: "string option"
  p_name :: "string option"
  p_price :: "'p option"

text \<open>The dictionary appended to \<open>product_mapping\<close> for each embedded reference image.\<close>

record 'p match_info =
  product_id :: string
  product_name :: string
  ref_file :: string
  price :: "'p option"

text \<open>
  \<open>faiss.IndexFlatIP(d)\<close>: the dimension and the stored rows; \<open>ntotal\<close> is the number of rows.
  \<open>add\<close> asserts that the matrix has \<open>d\<close> columns, as the Python wrapper of FAISS does.
\<close>

datatype 'f index_flat = IndexFlatIP (dim: nat) (vectors: "'f list list")

definition ntotal :: "'f index_flat \<Rightarrow> nat" where
  "ntotal ix = length (vectors ix)"

definition index_add :: "'f index_flat \<Rightarrow> 'f list list \<Rightarrow> exn + 'f index_flat" where
  "index_add ix m =
     (if list_all (\<lambda>row. length row = dim ix) m
      then Inr (IndexFlatIP (dim ix) (vectors ix @ m))
      else Inl AssertionError)"

text \<open>
  \<open>np.array(embeddings).astype('float32')\<close> on a non-empty list of one-dimensional arrays:
  a matrix when all have one length, a \<open>ValueError\<close> otherwise.
\<close>

definition np_array :: "'f list list \<Rightarrow> exn + 'f list list" where
  "np_array es =
     (if list_all (\<lambda>e. length e = length (hd es)) es then Inr es else Inl ValueError)"

text \<open>The global state.\<close>

record ('f, 'p) state =
  faiss_index :: "'f index_flat option"
  product_mapping :: "'p match_info list"

definition initial_state :: "('f, 'p) state" where
  "initial_state = \<lparr>faiss_index = None, product_mapping = []\<rparr>"

subsection \<open>The environment\<close>

datatype fs_node = Absent | RegularFile | Directory "string list"

datatype 'p catalog_file = NoCatalog | BadJSON | Catalog "'p product list"

text \<open>
  \<^item> \<open>catalog_file\<close>: what is at \<open>CATALOG_PATH\<close> (absent, not JSON, or a JSON array of objects);
  \<^item> \<open>fs\<close>: what \<open>os.path.exists\<close> and \<open>os.listdir\<close> see at a path;
  \<^item> \<open>str_lower\<close>: \<open>str.lower()\<close>, the lowercasing of Python by the Unicode case tables;
  \<^item> \<open>image_embedding\<close>: \<open>extract_embedding(Image.open(ref_path))\<close>, or the exception raised;
  \<^item> \<open>query_embedding\<close>: the same on the bytes of an upload, reshaped to one row;
  \<^item> \<open>faiss_search\<close>: \<open>faiss_index.search(query, k)\<close>, zipped to (distance, index) pairs.
\<close>

record ('f, 'p) env =
  catalog_file :: "'p catalog_file"
  fs :: "string \<Rightarrow> fs_node"
  str_lower :: "string \<Rightarrow> string"
  image_embedding :: "string \<Rightarrow> exn + 'f list"
  query_embedding :: "string \<Rightarrow> exn + 'f list"
  faiss_search :: "'f index_flat \<Rightarrow> 'f list \<Rightarrow> int \<Rightarrow> exn + ('f \<times> int) list"

subsection \<open>Strings and paths\<close>

definition endswith :: "string \<Rightarrow> string \<Rightarrow> bool" where
  "endswith s suf \<longleftrightarrow> length suf \<le> length s \<and> drop (length s - length suf) s = suf"

definition is_image_file :: "string \<Rightarrow> bool" where
  "is_image_file f \<longleftrightarrow> endswith f ''.jpg'' \<or> endswith f ''.jpeg'' \<or> endswith f ''.png''"

definition replace_space :: "string \<Rightarrow> string" where
  "replace_space s = map (\<lambda>c. if c = CHR '' '' then CHR ''_'' else c) s"

text \<open>\<open>os.path.join\<close> of two components (POSIX).\<close>

definition os_path_join :: "string \<Rightarrow> string \<Rightarrow> string" where
  "os_path_join a b =
     (if b \<noteq> [] \<and> hd b = CHR ''/'' then b
      else if a = [] \<or> last a = CHR ''/'' then a @ b
      else a @ ''/'' @ b)"

subsection \<open>build_faiss_index\<close>

text \<open>
  The inner loop over \<open>ref_files\<close>. An exception inside the \<open>try\<close> is logged and the file is
  skipped; otherwise the embedding and its dictionary are appended together.
\<close>

fun process_refs ::
  "('f, 'p) env \<Rightarrow> string \<Rightarrow> string \<Rightarrow> 'p option \<Rightarrow> string \<Rightarrow> string list \<Rightarrow>
   'f list list \<times> 'p match_info list \<Rightarrow> 'f list list \<times> 'p match_info list" where
  "process_refs env pid name pr ref_dir [] acc = acc"
| "process_refs env pid name pr ref_dir (f # rest) (embeddings, mapping) =
     (case image_embedding env (os_path_join ref_dir f) of
        Inl e \<Rightarrow> process_refs env pid name pr ref_dir rest (embeddings, mapping)
      | Inr embedding \<Rightarrow>
          process_refs env pid name pr ref_dir rest
            (embeddings @ [embedding],
             mapping @ [\<lparr>product_id = pid, product_name = name, ref_file = f, price = pr\<rparr>]))"

text \<open>
  The outer loop over the catalog. \<open>product['name']\<close> is evaluated for every entry (it is an
  argument of \<open>get\<close>), so an entry without a name raises \<open>KeyError\<close>; \<open>os.listdir\<close> raises on a
  path that is not a directory. Neither is caught in \<open>build_faiss_index\<close>. The exception leaves
  with the mapping as far as it was filled, since \<open>product_mapping\<close> is the global.
\<close>

fun process_catalog ::
  "('f, 'p) env \<Rightarrow> 'p product list \<Rightarrow> 'f list list \<times> 'p match_info list \<Rightarrow>
   (exn \<times> 'p match_info list) + ('f list list \<times> 'p match_info list)" where
  "process_catalog env [] acc = Inr acc"
| "process_catalog env (product # rest) (embeddings, mapping) =
     (case p_name product of
        None \<Rightarrow> Inl (KeyError ''name'', mapping)
      | Some name \<Rightarrow>
          (let pid = (case p_id product of
                        Some i \<Rightarrow> i
                      | None \<Rightarrow> str_lower env (replace_space name));
               ref_dir = os_path_join REFERENCES_DIR pid
           in case fs env ref_dir of
                Absent \<Rightarrow> process_catalog env rest (embeddings, mapping)
              | RegularFile \<Rightarrow> Inl (NotADirectoryError ref_dir, mapping)
              | Directory entries \<Rightarrow>
                  process_catalog env rest
                    (process_refs env pid name (p_price product) ref_dir
                       (filter is_image_file entries) (embeddings, mapping))))"

text \<open>
  How a call of \<open>build_faiss_index\<close> ends: with an exception, or with one of its three returns
  (named after the last line it logs).
\<close>

datatype build_outcome = Raised exn | CatalogNotFound | NoEmbeddings | Built

definition build_faiss_index ::
  "('f, 'p) env \<Rightarrow> ('f, 'p) state \<Rightarrow> build_outcome \<times> ('f, 'p) state" where
  "build_faiss_index env s =
     (case catalog_file env of
        NoCatalog \<Rightarrow> (CatalogNotFound, s)
      | BadJSON \<Rightarrow> (Raised JSONDecodeError, s)
      | Catalog catalog \<Rightarrow>
          (case process_catalog env catalog ([], []) of
             Inl (e, mapping) \<Rightarrow> (Raised e, s\<lparr>product_mapping := mapping\<rparr>)
           | Inr (embeddings, mapping) \<Rightarrow>
               (if length embeddings = 0 then (NoEmbeddings, s\<lparr>product_mapping := mapping\<rparr>)
                else
                  (case np_array embeddings of
                     Inl e \<Rightarrow> (Raised e, s\<lparr>product_mapping := mapping\<rparr>)
                   | Inr embeddings_matrix \<Rightarrow>
                       (case index_add (IndexFlatIP EMBEDDING_DIM []) embeddings_matrix of
                          Inl e \<Rightarrow>
                            (Raised e,
                             \<lparr>faiss_index = Some (IndexFlatIP EMBEDDING_DIM []),
                              product_mapping = mapping\<rparr>)
                        | Inr ix \<Rightarrow>
                            (Built, \<lparr>faiss_index = Some ix, product_mapping = mapping\<rparr>))))))"

subsection \<open>The handlers\<close>

record health =
  status :: string
  service :: string
  index_size :: nat
  products :: nat

definition health_check :: "('f, 'p) state \<Rightarrow> health" where
  "health_check s =
     \<lparr>status = ''ok'',
      service = ''FAISS Product Search'',
      index_size = (case faiss_index s of Some ix \<Rightarrow> ntotal ix | None \<Rightarrow> 0),
      products =
        (if product_mapping s \<noteq> [] then card (set (map product_id (product_mapping s)))
         else 0)\<rparr>"

text \<open>An entry of \<open>matches\<close>: the dictionary of the mapping with the similarity added.\<close>

record ('f, 'p) match = "'p match_info" +
  similarity :: 'f

definition make_match :: "'p match_info \<Rightarrow> 'f \<Rightarrow> ('f, 'p) match" where
  "make_match match_info dist =
     \<lparr>product_id = product_id match_info, product_name = product_name match_info,
      ref_file = ref_file match_info, price = price match_info, similarity = dist\<rparr>"

text \<open>
  The loop of \<open>search_product\<close> over \<open>zip(distances[0], indices[0])\<close>, with its two
  accumulators \<open>results\<close> and \<open>seen_products\<close>. An index outside the mapping takes the
  \<open>continue\<close>, which also passes over the test for \<open>break\<close>.
\<close>

fun aggregate_loop ::
  "'p match_info list \<Rightarrow> int \<Rightarrow> ('f \<times> int) list \<Rightarrow> ('f, 'p) match list \<Rightarrow> string set \<Rightarrow>
   ('f, 'p) match list" where
  "aggregate_loop pm k [] results seen_products = results"
| "aggregate_loop pm k ((dist, idx) # rest) results seen_products =
     (if idx < 0 \<or> idx \<ge> int (length pm) then aggregate_loop pm k rest results seen_products
      else
        (let match_info = pm ! nat idx;
             pid = product_id match_info;
             results' = (if pid \<notin> seen_products then results @ [make_match match_info dist]
                         else results);
             seen' = (if pid \<notin> seen_products then insert pid seen_products
                      else seen_products)
         in if int (length results') \<ge> k then results'
            else aggregate_loop pm k rest results' seen'))"

definition aggregate ::
  "'p match_info list \<Rightarrow> int \<Rightarrow> ('f \<times> int) list \<Rightarrow> ('f, 'p) match list" where
  "aggregate pm k raw = aggregate_loop pm k raw [] {}"

record ('f, 'p) search_response =
  success :: bool
  matches :: "('f, 'p) match list"
  query_shape :: "nat \<times> nat"

definition search_product ::
  "('f, 'p) env \<Rightarrow> ('f, 'p) state \<Rightarrow> string \<Rightarrow> int \<Rightarrow> http_error + ('f, 'p) search_response" where
  "search_product env s upload k =
     (case faiss_index s of
        None \<Rightarrow> Inl (HTTPException 503 (Text ''FAISS index not initialized''))
      | Some ix \<Rightarrow>
          (case query_embedding env upload of
             Inl e \<Rightarrow> Inl (HTTPException 500 (StrOf e))
           | Inr q \<Rightarrow>
               (case faiss_search env ix q (min k (int (ntotal ix))) of
                  Inl e \<Rightarrow> Inl (HTTPException 500 (StrOf e))
                | Inr raw \<Rightarrow>
                    Inr \<lparr>success = True,
                         matches = aggregate (product_mapping s) k raw,
                         query_shape = (1, length q)\<rparr>)))"

record rebuild_response =
  rb_success :: bool
  rb_index_size :: nat

definition rebuild_index ::
  "('f, 'p) env \<Rightarrow> ('f, 'p) state \<Rightarrow> (http_error + rebuild_response) \<times> ('f, 'p) state" where
  "rebuild_index env s =
     (case build_faiss_index env s of
        (Raised e, s') \<Rightarrow> (Inl (HTTPException 500 (StrOf e)), s')
      | (outcome, s') \<Rightarrow>
          (Inr \<lparr>rb_success = True,
                rb_index_size = (case faiss_index s' of Some ix \<Rightarrow> ntotal ix | None \<Rightarrow> 0)\<rparr>,
           s'))"

subsection \<open>Notions used in the statements\<close>

text \<open>An index that passes the range test of the search loop (the negation of its guard).\<close>

definition in_range :: "'p match_info list \<Rightarrow> int \<Rightarrow> bool" where
  "in_range pm idx \<longleftrightarrow> \<not> (idx < 0 \<or> idx \<ge> int (length pm))"





subsection \<open>A small catalog\<close>

text \<open>
  Two products with reference images, one without a reference directory and one entry without
  a name. In the directory of the mug one file is not an image and one image does not decode.
\<close>

definition mug :: "int product" where
  "mug = \<lparr>p_id = Some ''mug'', p_name = Some ''Mug'', p_price = Some 9\<rparr>"

definition tea_cup :: "int product" where
  "tea_cup = \<lparr>p_id = None, p_name = Some ''Tea Cup'', p_price = None\<rparr>"

definition ghost :: "int product" where
  "ghost = \<lparr>p_id = Some ''ghost'', p_name = Some ''Ghost'', p_price = Some 1\<rparr>"

definition nameless :: "int product" where
  "nameless = \<lparr>p_id = Some ''nameless'', p_name = None, p_price = None\<rparr>"

text \<open>
  The names of this catalog are ASCII, where \<open>str.lower()\<close> changes the letters A to Z and
  nothing else.
\<close>

definition ascii_lower_char :: "char \<Rightarrow> char" where
  "ascii_lower_char c =
     (case map_of (zip ''ABCDEFGHIJKLMNOPQRSTUVWXYZ'' ''abcdefghijklmnopqrstuvwxyz'') c of
        Some l \<Rightarrow> l
      | None \<Rightarrow> c)"

definition ascii_lower :: "string \<Rightarrow> string" where
  "ascii_lower s = map ascii_lower_char s"

definition feature :: "int list" where
  "feature = replicate 576 1"

definition shop_fs :: "string \<Rightarrow> fs_node" where
  "shop_fs path =
     (if path = ''references/mug'' then Directory [''a.jpg'', ''notes.txt'', ''bad.png'']
      else if path = ''references/tea_cup'' then Directory [''c.jpeg'']
      else Absent)"

definition shop_embedding :: "string \<Rightarrow> exn + int list" where
  "shop_embedding path =
     (if path = ''references/mug/bad.png'' then Inl (OtherError ''cannot identify image file'')
      else Inr feature)"

definition shop :: "int product list \<Rightarrow> (string \<Rightarrow> fs_node) \<Rightarrow> (int, int) env" where
  "shop catalog files =
     \<lparr>catalog_file = Catalog catalog, fs = files, str_lower = ascii_lower,
      image_embedding = shop_embedding,
      query_embedding = (\<lambda>bytes. Inr feature),
      faiss_search = (\<lambda>ix q k. Inr [])\<rparr>"

definition mug_a :: "int match_info" where
  "mug_a = \<lparr>product_id = ''mug'', product_name = ''Mug'', ref_file = ''a.jpg'', price = Some 9\<rparr>"

definition mug_b :: "int match_info" where
  "mug_b = \<lparr>product_id = ''mug'', product_name = ''Mug'', ref_file = ''b.jpg'', price = Some 9\<rparr>"

definition cup_c :: "int match_info" where
  "cup_c = \<lparr>product_id = ''tea_cup'', product_name = ''Tea Cup'', ref_file = ''c.jpeg'',
            price = None\<rparr>"


definition no_files :: "string \<Rightarrow> fs_node" where
  "no_files path = Absent"

definition raw_matches :: "(int \<times> int) list" where
  "raw_matches = [(90, 1), (80, - 1), (70, 0), (60, 7), (50, 2), (40, 0)]"

definition ready_state :: "(int, int) state" where
  "ready_state =
     \<lparr>faiss_index = Some (IndexFlatIP 576 [feature, feature]), product_mapping = [mug_a, cup_c]\<rparr>"

section \<open>The search loop\<close>

lemma aggregate_loop_length:
  "0 < k \<Longrightarrow> int (length results) < k \<Longrightarrow>
   int (length (aggregate_loop pm k raw results seen)) \<le> k"
proof (induction raw arbitrary: results seen)
  case Nil
  then show ?case by simp
next
  case (Cons m raw)
  obtain dist idx where m: "m = (dist, idx)" by (cases m)
  show ?case
    using Cons.prems Cons.IH
    by (auto simp: m Let_def)
qed

lemma aggregate_loop_distinct:
  "distinct (map product_id results) \<Longrightarrow> product_id ` set results \<subseteq> seen \<Longrightarrow>
   distinct (map product_id (aggregate_loop pm k raw results seen))"
proof (induction raw arbitrary: results seen)
  case Nil
  then show ?case by simp
next
  case (Cons m raw)
  obtain dist idx where m: "m = (dist, idx)" by (cases m)
  show ?case
  proof (cases "idx < 0 \<or> idx \<ge> int (length pm)")
    case True
    then show ?thesis using Cons by (simp add: m)
  next
    case False
    let ?mi = "pm ! nat idx"
    show ?thesis
    proof (cases "product_id ?mi \<in> seen")
      case True
      then show ?thesis using False Cons by (simp add: m Let_def)
    next
      case new: False
      have d: "distinct (map product_id (results @ [make_match ?mi dist]))"
        using Cons.prems new by (auto simp: make_match_def)
      have s: "product_id ` set (results @ [make_match ?mi dist])
                 \<subseteq> insert (product_id ?mi) seen"
        using Cons.prems by (auto simp: make_match_def)
      show ?thesis
        using False new d Cons.IH [OF d s] by (simp add: m Let_def)
    qed
  qed
qed

lemma aggregate_loop_filter:
  "aggregate_loop pm k (filter (\<lambda>(dist, idx). in_range pm idx) raw) results seen =
   aggregate_loop pm k raw results seen"
proof (induction raw arbitrary: results seen)
  case Nil
  then show ?case by simp
next
  case (Cons m raw)
  obtain dist idx where m: "m = (dist, idx)" by (cases m)
  show ?case
    using Cons.IH by (simp add: m in_range_def Let_def)
qed

text \<open>
  A result that the loop adds comes from a match of the input: the first one, among those in
  range, that carries its product.
\<close>

lemma aggregate_loop_first:
  "r \<in> set (aggregate_loop pm k raw results seen) \<Longrightarrow> r \<notin> set results \<Longrightarrow>
   \<exists>pre dist idx post. raw = pre @ (dist, idx) # post \<and> in_range pm idx \<and>
      r = make_match (pm ! nat idx) dist \<and> product_id r \<notin> seen \<and>
      (\<forall>(d, j) \<in> set pre. in_range pm j \<longrightarrow> product_id (pm ! nat j) \<noteq> product_id r)"
proof (induction raw arbitrary: results seen)
  case Nil
  then show ?case by simp
next
  case (Cons m raw)
  obtain dist idx where m: "m = (dist, idx)" by (cases m)
  show ?case
  proof (cases "in_range pm idx")
    case False
    then have "r \<in> set (aggregate_loop pm k raw results seen)"
      using Cons.prems(1) by (simp add: m in_range_def)
    from Cons.IH [OF this Cons.prems(2)]
    obtain pre d i post where h: "raw = pre @ (d, i) # post" "in_range pm i"
      "r = make_match (pm ! nat i) d" "product_id r \<notin> seen"
      "\<forall>(d, j) \<in> set pre. in_range pm j \<longrightarrow> product_id (pm ! nat j) \<noteq> product_id r"
      by blast
    have "m # raw = (m # pre) @ (d, i) # post" using h(1) by simp
    moreover have
      "\<forall>(d, j) \<in> set (m # pre). in_range pm j \<longrightarrow> product_id (pm ! nat j) \<noteq> product_id r"
      using h(5) False by (simp add: m)
    ultimately show ?thesis using h(2,3,4) by blast
  next
    case True
    let ?mi = "pm ! nat idx"
    show ?thesis
    proof (cases "product_id ?mi \<in> seen")
      case seen: True
      have "r \<in> set (aggregate_loop pm k raw results seen)"
        using Cons.prems True seen by (auto simp: m in_range_def Let_def split: if_splits)
      from Cons.IH [OF this Cons.prems(2)]
      obtain pre d i post where h: "raw = pre @ (d, i) # post" "in_range pm i"
        "r = make_match (pm ! nat i) d" "product_id r \<notin> seen"
        "\<forall>(d, j) \<in> set pre. in_range pm j \<longrightarrow> product_id (pm ! nat j) \<noteq> product_id r"
        by blast
      have "m # raw = (m # pre) @ (d, i) # post" using h(1) by simp
      moreover have
        "\<forall>(d, j) \<in> set (m # pre). in_range pm j \<longrightarrow> product_id (pm ! nat j) \<noteq> product_id r"
        using h(4,5) seen by (auto simp: m)
      ultimately show ?thesis using h(2,3,4) by blast
    next
      case new: False
      let ?res = "results @ [make_match ?mi dist]"
      show ?thesis
      proof (cases "r = make_match ?mi dist")
        case True
        have "m # raw = [] @ (dist, idx) # raw" by (simp add: m)
        moreover have "product_id r \<notin> seen" using new True by (simp add: make_match_def)
        ultimately show ?thesis using \<open>in_range pm idx\<close> True by fastforce
      next
        case other: False
        have nin: "r \<notin> set ?res" using Cons.prems(2) other by simp
        have "r \<in> set (aggregate_loop pm k raw ?res (insert (product_id ?mi) seen))"
          using Cons.prems(1) True new nin
          by (auto simp: m in_range_def Let_def split: if_splits)
        from Cons.IH [OF this nin]
        obtain pre d i post where h: "raw = pre @ (d, i) # post" "in_range pm i"
          "r = make_match (pm ! nat i) d" "product_id r \<notin> insert (product_id ?mi) seen"
          "\<forall>(d, j) \<in> set pre. in_range pm j \<longrightarrow> product_id (pm ! nat j) \<noteq> product_id r"
          by blast
        have "m # raw = (m # pre) @ (d, i) # post" using h(1) by simp
        moreover have
          "\<forall>(d, j) \<in> set (m # pre). in_range pm j \<longrightarrow> product_id (pm ! nat j) \<noteq> product_id r"
          using h(4,5) by (auto simp: m)
        ultimately show ?thesis using h(2,3,4) by blast
      qed
    qed
  qed
qed

text \<open>
  C3. For every list of raw matches and every positive \<open>k\<close>, the loop of \<open>search_product\<close>
  returns at most \<open>k\<close> results, no two of them with the same \<open>product_id\<close>; every result is
  built from the first match of the input, among those whose index is in range, that carries
  its product, and reports the score of that match; and the matches with an index out of range
  change nothing: the loop has no error result, and it returns the same list when they
  are removed from the input.
\<close>

theorem aggregate_distinct_first_at_most_k:
  assumes "0 < k"
  shows "int (length (aggregate pm k raw)) \<le> k \<and>
         distinct (map product_id (aggregate pm k raw)) \<and>
         (\<forall>r \<in> set (aggregate pm k raw).
            \<exists>pre dist idx post. raw = pre @ (dist, idx) # post \<and> in_range pm idx \<and>
              r = make_match (pm ! nat idx) dist \<and> similarity r = dist \<and>
              (\<forall>(d, j) \<in> set pre. in_range pm j \<longrightarrow>
                  product_id (pm ! nat j) \<noteq> product_id r)) \<and>
         aggregate pm k (filter (\<lambda>(dist, idx). in_range pm idx) raw) = aggregate pm k raw"
proof -
  have len: "int (length (aggregate pm k raw)) \<le> k"
    using aggregate_loop_length [of k "[]" pm raw "{}"] assms by (simp add: aggregate_def)
  have dis: "distinct (map product_id (aggregate pm k raw))"
    using aggregate_loop_distinct [of "[]" "{}" pm k raw] by (simp add: aggregate_def)
  have fst: "\<exists>pre dist idx post. raw = pre @ (dist, idx) # post \<and> in_range pm idx \<and>
              r = make_match (pm ! nat idx) dist \<and> similarity r = dist \<and>
              (\<forall>(d, j) \<in> set pre. in_range pm j \<longrightarrow>
                  product_id (pm ! nat j) \<noteq> product_id r)"
    if "r \<in> set (aggregate pm k raw)" for r
  proof -
    from that have "r \<in> set (aggregate_loop pm k raw [] {})" by (simp add: aggregate_def)
    from aggregate_loop_first [OF this]
    obtain pre dist idx post where h: "raw = pre @ (dist, idx) # post" "in_range pm idx"
      "r = make_match (pm ! nat idx) dist"
      "\<forall>(d, j) \<in> set pre. in_range pm j \<longrightarrow> product_id (pm ! nat j) \<noteq> product_id r"
      by auto
    have "similarity r = dist" using h(3) by (simp add: make_match_def)
    with h show ?thesis by blast
  qed
  have flt: "aggregate pm k (filter (\<lambda>(dist, idx). in_range pm idx) raw) = aggregate pm k raw"
    by (simp add: aggregate_def aggregate_loop_filter)
  from len dis fst flt show ?thesis by blast
qed

lemma aggregate_raw_matches:
  "aggregate [mug_a, mug_b, cup_c] 2 raw_matches = [make_match mug_b 90, make_match cup_c 50]"
  by (simp add: aggregate_def raw_matches_def mug_a_def mug_b_def cup_c_def make_match_def)

theorem aggregate_distinct_first_at_most_k_witness:
  "(0::int) < 2 \<and>
   aggregate [mug_a, mug_b, cup_c] 2 raw_matches = [make_match mug_b 90, make_match cup_c 50] \<and>
   int (length (aggregate [mug_a, mug_b, cup_c] 2 raw_matches)) \<le> 2 \<and>
   distinct (map product_id (aggregate [mug_a, mug_b, cup_c] 2 raw_matches))"
proof -
  have k: "(0::int) < 2" by simp
  from aggregate_distinct_first_at_most_k [OF k, of "[mug_a, mug_b, cup_c]" raw_matches]
  have "int (length (aggregate [mug_a, mug_b, cup_c] 2 raw_matches)) \<le> 2 \<and>
        distinct (map product_id (aggregate [mug_a, mug_b, cup_c] 2 raw_matches))"
    by blast
  with k aggregate_raw_matches show ?thesis by blast
qed

section \<open>Search before any index exists\<close>

text \<open>
  C5. While \<open>faiss_index\<close> is \<open>None\<close> (no build has created an index), every search, whatever
  the upload, the value of \<open>k\<close> and the answers of the environment, ends with the HTTP error
  503 "FAISS index not initialized"; it never returns a response with matches.
\<close>

theorem search_product_not_ready:
  "faiss_index s = None \<Longrightarrow>
   search_product env s upload k = Inl (HTTPException 503 (Text ''FAISS index not initialized''))"
  by (simp add: search_product_def)

theorem search_product_not_ready_witness:
  "faiss_index (initial_state :: (int, int) state) = None \<and>
   search_product (shop [mug, tea_cup, ghost] shop_fs) initial_state ''img'' 5 =
     Inl (HTTPException 503 (Text ''FAISS index not initialized''))"
  using search_product_not_ready
          [of "initial_state :: (int, int) state" "shop [mug, tea_cup, ghost] shop_fs" "''img''" 5]
  by (simp add: initial_state_def)

section \<open>The catalog loop\<close>




lemma shop_catalog: "catalog_file (shop catalog files) = Catalog catalog"
  by (simp add: shop_def)


lemma shop_loop:
  "process_catalog (shop [mug, tea_cup, ghost] shop_fs) [mug, tea_cup, ghost] ([], []) =
   Inr ([feature, feature], [mug_a, cup_c])"
  by (simp add: shop_def mug_def tea_cup_def ghost_def shop_fs_def shop_embedding_def
      REFERENCES_DIR_def os_path_join_def is_image_file_def endswith_def
      ascii_lower_def replace_space_def ascii_lower_char_def mug_a_def cup_c_def Let_def)






section \<open>The index and the mapping after a build\<close>

lemma process_refs_same_length:
  "length embeddings = length mapping \<Longrightarrow>
   process_refs env pid name pr ref_dir files (embeddings, mapping) = (embeddings', mapping') \<Longrightarrow>
   length embeddings' = length mapping'"
proof (induction files arbitrary: embeddings mapping)
  case Nil
  then show ?case by simp
next
  case (Cons f files)
  show ?case
  proof (cases "image_embedding env (os_path_join ref_dir f)")
    case (Inl e)
    then show ?thesis using Cons by simp
  next
    case (Inr v)
    have "length (embeddings @ [v]) =
          length (mapping @ [\<lparr>product_id = pid, product_name = name, ref_file = f, price = pr\<rparr>])"
      using Cons.prems(1) by simp
    from Cons.IH [OF this] show ?thesis using Cons.prems(2) Inr by simp
  qed
qed

lemma process_catalog_same_length:
  "length embeddings = length mapping \<Longrightarrow>
   process_catalog env catalog (embeddings, mapping) = Inr (embeddings', mapping') \<Longrightarrow>
   length embeddings' = length mapping'"
proof (induction catalog arbitrary: embeddings mapping)
  case Nil
  then show ?case by simp
next
  case (Cons p catalog)
  from Cons.prems(2) obtain name where name: "p_name p = Some name"
    by (auto split: option.splits)
  let ?pid = "case p_id p of Some i \<Rightarrow> i | None \<Rightarrow> str_lower env (replace_space name)"
  let ?dir = "os_path_join REFERENCES_DIR ?pid"
  show ?case
  proof (cases "fs env ?dir")
    case Absent
    then show ?thesis using Cons name by (simp add: Let_def)
  next
    case RegularFile
    then show ?thesis using Cons.prems(2) name by (simp add: Let_def)
  next
    case (Directory entries)
    obtain e1 m1 where step:
      "process_refs env ?pid name (p_price p) ?dir (filter is_image_file entries)
         (embeddings, mapping) = (e1, m1)"
      by (cases "process_refs env ?pid name (p_price p) ?dir (filter is_image_file entries)
         (embeddings, mapping)")
    have len: "length e1 = length m1"
      using process_refs_same_length [OF Cons.prems(1) step] .
    have "process_catalog env catalog (e1, m1) = Inr (embeddings', mapping')"
      using Cons.prems(2) name Directory step by (simp add: Let_def)
    from Cons.IH [OF len this] show ?thesis .
  qed
qed

text \<open>What a build that reaches its last line has done.\<close>

lemma build_Built:
  assumes "build_faiss_index env s = (Built, s')"
  shows "\<exists>catalog embeddings mapping.
           catalog_file env = Catalog catalog \<and>
           process_catalog env catalog ([], []) = Inr (embeddings, mapping) \<and>
           embeddings \<noteq> [] \<and>
           list_all (\<lambda>row. length row = EMBEDDING_DIM) embeddings \<and>
           s' = \<lparr>faiss_index = Some (IndexFlatIP EMBEDDING_DIM embeddings),
                 product_mapping = mapping\<rparr>"
  using assms
  by (auto simp: build_faiss_index_def index_add_def np_array_def
           split: catalog_file.splits sum.splits prod.splits if_splits)

lemma length_feature: "length feature = 576"
  by (simp add: feature_def)

lemma shop_build:
  "build_faiss_index (shop [mug, tea_cup, ghost] shop_fs) s = (Built, ready_state)"
  by (simp add: build_faiss_index_def shop_loop shop_catalog np_array_def index_add_def
      length_feature EMBEDDING_DIM_def ready_state_def del: process_catalog.simps)

text \<open>
  The state a build leaves when it succeeds (it reaches its last line, having created the
  index): the index holds as many vectors as the product mapping has entries, and every stored
  vector has the configured dimension 576. Both are the ones this build made: the same build
  from any other prior state \<open>s0\<close> ends in the same state.
\<close>

theorem built_index_matches_mapping:
  assumes "build_faiss_index env s = (Built, s')"
  shows "\<exists>ix. faiss_index s' = Some ix \<and> dim ix = EMBEDDING_DIM \<and>
           ntotal ix = length (product_mapping s') \<and>
           (\<forall>v \<in> set (vectors ix). length v = EMBEDDING_DIM) \<and>
           build_faiss_index env s0 = (Built, s')"
proof -
  from build_Built [OF assms] obtain catalog embeddings mapping where
    c: "catalog_file env = Catalog catalog" and
    p: "process_catalog env catalog ([], []) = Inr (embeddings, mapping)" and
    ne: "embeddings \<noteq> []" and
    d: "list_all (\<lambda>row. length row = EMBEDDING_DIM) embeddings" and
    s': "s' = \<lparr>faiss_index = Some (IndexFlatIP EMBEDDING_DIM embeddings),
               product_mapping = mapping\<rparr>"
    by blast
  have len: "length embeddings = length mapping"
    using process_catalog_same_length [OF _ p] by simp
  have hom: "list_all (\<lambda>e. length e = length (hd embeddings)) embeddings"
    using d ne by (cases embeddings) (auto simp: list_all_iff)
  have again: "build_faiss_index env s0 = (Built, s')"
    using c p ne d hom by (simp add: build_faiss_index_def np_array_def index_add_def s')
  show ?thesis
    using len d again by (simp add: s' ntotal_def list_all_iff)
qed

theorem built_index_matches_mapping_witness:
  "build_faiss_index (shop [mug, tea_cup, ghost] shop_fs) initial_state = (Built, ready_state) \<and>
   faiss_index ready_state = Some (IndexFlatIP 576 [feature, feature]) \<and>
   ntotal (IndexFlatIP 576 [feature, feature]) = length (product_mapping ready_state) \<and>
   list_all (\<lambda>v. length v = EMBEDDING_DIM) (vectors (IndexFlatIP 576 [feature, feature])) \<and>
   build_faiss_index (shop [mug, tea_cup, ghost] shop_fs) ready_state = (Built, ready_state)"
proof -
  have ix: "faiss_index ready_state = Some (IndexFlatIP 576 [feature, feature])"
    by (simp add: ready_state_def)
  from built_index_matches_mapping [OF shop_build [of initial_state], of ready_state]
  obtain ix where "faiss_index ready_state = Some ix"
    "ntotal ix = length (product_mapping ready_state)"
    "\<forall>v \<in> set (vectors ix). length v = EMBEDDING_DIM"
    "build_faiss_index (shop [mug, tea_cup, ghost] shop_fs) ready_state = (Built, ready_state)"
    by blast
  with ix shop_build [of initial_state] show ?thesis
    by (simp add: list_all_iff)
qed

subsection \<open>The correspondence after a later rebuild\<close>

lemma empty_loop:
  "process_catalog (shop [mug, ghost] no_files) [mug, ghost] ([], []) = Inr ([], [])"
  by (simp add: shop_def mug_def ghost_def no_files_def Let_def)

lemma emptied_state:
  "snd (rebuild_index (shop [mug, ghost] no_files) ready_state) =
     \<lparr>faiss_index = Some (IndexFlatIP 576 [feature, feature]), product_mapping = []\<rparr>"
  by (simp add: rebuild_index_def build_faiss_index_def empty_loop shop_catalog ready_state_def
      del: process_catalog.simps)

text \<open>
  C8. The claim is that the equality between the number of vectors of the index and the number
  of entries of the product mapping, which a successful build establishes, is preserved
  afterwards, the two being replaced only together. The code establishes it and then loses it.
  The build of the small catalog leaves two vectors and two mapping entries. A rebuild that
  then finds no reference directory resets the global mapping before its loop and returns
  without creating an index: the index of two vectors stays active with a mapping of no
  entry, and a search whose nearest neighbours are the positions 0 and 1 finds both out of
  range and returns no match.
\<close>

theorem rebuild_loses_mapping_of_kept_index:
  "build_faiss_index (shop [mug, tea_cup, ghost] shop_fs) initial_state = (Built, ready_state) \<and>
   faiss_index ready_state = Some (IndexFlatIP 576 [feature, feature]) \<and>
   length (product_mapping ready_state) = ntotal (IndexFlatIP 576 [feature, feature]) \<and>
   faiss_index (snd (rebuild_index (shop [mug, ghost] no_files) ready_state)) =
     Some (IndexFlatIP 576 [feature, feature]) \<and>
   ntotal (IndexFlatIP 576 [feature, feature]) = 2 \<and>
   length (product_mapping (snd (rebuild_index (shop [mug, ghost] no_files) ready_state))) = 0 \<and>
   aggregate (product_mapping (snd (rebuild_index (shop [mug, ghost] no_files) ready_state)))
     5 [(90, 0), (80, 1)] = ([] :: (int, int) match list)"
  by (simp add: shop_build emptied_state ntotal_def aggregate_def)
     (simp add: ready_state_def)

section \<open>Rebuilding twice\<close>

text \<open>
  C9. With the catalog, the reference files and the embedding of every file fixed (one
  environment), a second rebuild right after a first one gives the same answer and leaves the
  same state as the first: the same index contents, exactly, and the same product mapping,
  hence the same set of products. This holds for every way the build can end.
\<close>

theorem rebuild_idempotent:
  "build_faiss_index env (snd (build_faiss_index env s)) = build_faiss_index env s \<and>
   rebuild_index env (snd (rebuild_index env s)) = rebuild_index env s"
proof -
  have b: "build_faiss_index env (snd (build_faiss_index env s)) = build_faiss_index env s"
    by (auto simp: build_faiss_index_def split: catalog_file.splits sum.splits prod.splits)
  have r: "snd (rebuild_index env t) = snd (build_faiss_index env t)" for t :: "('a, 'b) state"
    by (simp add: rebuild_index_def split: prod.splits build_outcome.splits)
  have "rebuild_index env (snd (build_faiss_index env s)) = rebuild_index env s"
    using b by (simp add: rebuild_index_def)
  then show ?thesis using b r by simp
qed

theorem rebuild_idempotent_witness:
  "snd (build_faiss_index (shop [mug, tea_cup, ghost] shop_fs) initial_state) = ready_state \<and>
   build_faiss_index (shop [mug, tea_cup, ghost] shop_fs) ready_state =
     build_faiss_index (shop [mug, tea_cup, ghost] shop_fs) initial_state"
  using rebuild_idempotent [of "shop [mug, tea_cup, ghost] shop_fs" initial_state]
    shop_build [of initial_state]
  by simp

section \<open>A rebuild that extracts no embedding\<close>

text \<open>
  C2 (as the code has it). When the catalog is read and the loop ends with no embedding at all,
  the build logs "No embeddings extracted!" and returns without creating an index: the vector
  index stays the one that was active. The rebuild handler does not report a failure: it
  answers \<open>success: True\<close> with the size of the index that was kept (0 when there is none).
\<close>

theorem rebuild_no_embeddings_keeps_index:
  assumes "catalog_file env = Catalog catalog"
    and "process_catalog env catalog ([], []) = Inr ([], mapping)"
  shows "fst (build_faiss_index env s) = NoEmbeddings \<and>
         faiss_index (snd (rebuild_index env s)) = faiss_index s \<and>
         fst (rebuild_index env s) =
           Inr \<lparr>rb_success = True,
                rb_index_size = (case faiss_index s of Some ix \<Rightarrow> ntotal ix | None \<Rightarrow> 0)\<rparr>"
  using assms by (simp add: rebuild_index_def build_faiss_index_def)

theorem rebuild_no_embeddings_keeps_index_witness:
  "catalog_file (shop [mug, ghost] no_files) = Catalog [mug, ghost] \<and>
   process_catalog (shop [mug, ghost] no_files) [mug, ghost] ([], []) = Inr ([], []) \<and>
   fst (build_faiss_index (shop [mug, ghost] no_files) ready_state) = NoEmbeddings \<and>
   faiss_index (snd (rebuild_index (shop [mug, ghost] no_files) ready_state)) =
     Some (IndexFlatIP 576 [feature, feature])"
  using rebuild_no_embeddings_keeps_index [OF shop_catalog empty_loop, of ready_state]
    shop_catalog [of "[mug, ghost]" no_files] empty_loop
  by (simp add: ready_state_def)

text \<open>
  The claim as the specification states it fails on the state a successful build leaves
  (\<open>ready_state\<close>, two vectors and two mapping entries) when no reference directory exists any
  more: the caller is told \<open>success: True\<close>, and the product mapping is emptied although the
  index is kept.
\<close>

theorem rebuild_no_embeddings_reports_success:
  "process_catalog (shop [mug, ghost] no_files) [mug, ghost] ([], []) = Inr ([], []) \<and>
   fst (build_faiss_index (shop [mug, ghost] no_files) ready_state) = NoEmbeddings \<and>
   rebuild_index (shop [mug, ghost] no_files) ready_state =
     (Inr \<lparr>rb_success = True, rb_index_size = 2\<rparr>,
      \<lparr>faiss_index = Some (IndexFlatIP 576 [feature, feature]), product_mapping = []\<rparr>) \<and>
   product_mapping ready_state = [mug_a, cup_c]"
  by (simp add: rebuild_index_def build_faiss_index_def empty_loop shop_catalog ready_state_def
      ntotal_def del: process_catalog.simps)

section \<open>The health check\<close>

lemma broken_rebuild:
  "rebuild_index (shop [mug, nameless] shop_fs) initial_state =
     (Inl (HTTPException 500 (StrOf (KeyError ''name''))),
      \<lparr>faiss_index = None, product_mapping = [mug_a]\<rparr>)"
  by (simp add: rebuild_index_def build_faiss_index_def shop_def mug_def nameless_def shop_fs_def
      shop_embedding_def REFERENCES_DIR_def os_path_join_def is_image_file_def endswith_def
      mug_a_def initial_state_def Let_def)

text \<open>
  C10 (as the code has it). The health check has no error case and always reports status
  "ok". While no index is active it reports index size 0, where a search in the same state
  ends with the 503 error. The product count it reports is the number of distinct product ids
  in the current product mapping, whatever the index is; so with no index and an empty mapping,
  as in the initial state, it reports 0 and 0.
\<close>

theorem health_check_total:
  "status (health_check s) = ''ok'' \<and>
   products (health_check s) = card (product_id ` set (product_mapping s)) \<and>
   (faiss_index s = None \<longrightarrow>
      index_size (health_check s) = 0 \<and>
      search_product env s upload k =
        Inl (HTTPException 503 (Text ''FAISS index not initialized''))) \<and>
   (faiss_index s = None \<and> product_mapping s = [] \<longrightarrow>
      health_check s =
        \<lparr>status = ''ok'', service = ''FAISS Product Search'', index_size = 0, products = 0\<rparr>)"
  by (simp add: health_check_def search_product_def)

theorem health_check_total_witness:
  "faiss_index (initial_state :: (int, int) state) = None \<and>
   product_mapping (initial_state :: (int, int) state) = [] \<and>
   health_check (initial_state :: (int, int) state) =
     \<lparr>status = ''ok'', service = ''FAISS Product Search'', index_size = 0, products = 0\<rparr>"
  using health_check_total
          [of "initial_state :: (int, int) state" "shop [mug, tea_cup, ghost] shop_fs" "''img''" 5]
  by (simp add: initial_state_def)

text \<open>
  The claim as stated fails in a state with no index and a mapping that is not empty. Such a
  state is reached from the initial one by a rebuild that raises in the middle of the catalog:
  the first entry is embedded, the second has no name. The health check then reports one
  product although no index is active.
\<close>

theorem health_check_products_without_index:
  "faiss_index (snd (rebuild_index (shop [mug, nameless] shop_fs) initial_state)) = None \<and>
   index_size (health_check (snd (rebuild_index (shop [mug, nameless] shop_fs) initial_state))) = 0 \<and>
   products (health_check (snd (rebuild_index (shop [mug, nameless] shop_fs) initial_state))) = 1"
  by (simp add: broken_rebuild health_check_def mug_a_def)

end
